theory Spec2Isabelle
  imports Main "HOL-Library.Word"
begin

section \<open>Synchronisation primitives of fdvsync.h\<close>

text \<open>
  The header \<^verbatim>\<open>src/fdvsync.h\<close> declares the classes \<^verbatim>\<open>Mutex\<close>, \<^verbatim>\<open>MutexLock\<close> and
  \<^verbatim>\<open>SoftTimeOut\<close> and the function \<^verbatim>\<open>millisDiff\<close> (their bodies live in a translation
  unit that is not part of the sources), and defines inline the templates
  \<^verbatim>\<open>SafeValue\<close> and \<^verbatim>\<open>Queue\<close> and the struct \<^verbatim>\<open>ResourceCounter\<close>.

  Every method is modelled as one uninterrupted call of a single task: a blocking
  call that cannot be served at once finds nobody to serve it later, so it ends
  with its timeout. Beside its result and the updated object, a method returns the
  list of the calls it made on the primitives below it, in program order; this
  history is an observation of the call, not part of the object's state.

  \<^verbatim>\<open>uint32_t\<close> is \<open>32 word\<close>: \<open>+\<close> and \<open>-\<close> wrap around, \<open>div\<close> truncates.
  The macros \<^verbatim>\<open>portMAX_DELAY\<close> and \<^verbatim>\<open>portTICK_RATE_MS\<close> come from the scheduler's
  headers; the functions that mention them take them as parameters of the same name.
\<close>

type_synonym u32 = "32 word"

subsection \<open>Mutex\<close>

text \<open>
  Modelled from the spec: the state of a \<^verbatim>\<open>Mutex\<close>. Section 3 describes a lock as
  one binary-semaphore handle whose state is locked or unlocked.
\<close>

datatype Mutex = Unlocked | Locked

text \<open>
  Modelled from the spec: \<^verbatim>\<open>Mutex::Mutex()\<close>, whose body is not in the sources.
  Section 3: a lock is "created unlocked-available".
\<close>

definition Mutex_new :: Mutex where
  "Mutex_new = Unlocked"

text \<open>
  Modelled from the spec: \<^verbatim>\<open>Mutex::lock(msTimeOut)\<close>, whose body is not in the sources.
  Sections 4.1 and 8: it returns true iff the lock becomes available within the
  timeout, and returns false leaving the lock unchanged otherwise. With no other
  task running during the call, the lock becomes available iff it is available.
\<close>

definition Mutex_lock :: "Mutex \<Rightarrow> u32 \<Rightarrow> bool \<times> Mutex" where
  "Mutex_lock m msTimeOut =
     (case m of Unlocked \<Rightarrow> (True, Locked) | Locked \<Rightarrow> (False, Locked))"

text \<open>
  Modelled from the spec: \<^verbatim>\<open>Mutex::unlock()\<close>, whose body is not in the sources.
  It gives the binary semaphore back; the lock is available afterwards.
\<close>

definition Mutex_unlock :: "Mutex \<Rightarrow> Mutex" where
  "Mutex_unlock m = Unlocked"

text \<open>A call made on a \<^verbatim>\<open>Mutex\<close>: \<open>Lock b\<close> is a call of lock that returned \<open>b\<close>.\<close>

datatype mutex_call = Lock bool | Unlock

subsection \<open>MutexLock\<close>

text \<open>
  The guard holds a pointer to the mutex and the flag \<^verbatim>\<open>m_acquired\<close>. The mutex it
  points to is passed to the constructor and to the destructor and handed back.
\<close>

record MutexLock =
  m_acquired :: bool

text \<open>
  Modelled from the spec: \<^verbatim>\<open>MutexLock::MutexLock(mutex, msTimeOut)\<close>, whose body is not
  in the sources. Section 4.2: the constructor attempts \<^verbatim>\<open>lock(timeout)\<close> immediately
  and stores the boolean result.
\<close>

definition MutexLock_new :: "Mutex \<Rightarrow> u32 \<Rightarrow> MutexLock \<times> Mutex \<times> mutex_call list" where
  "MutexLock_new mutex msTimeOut =
     (let (acquired, mutex1) = Mutex_lock mutex msTimeOut
      in (\<lparr>m_acquired = acquired\<rparr>, mutex1, [Lock acquired]))"

text \<open>
  Modelled from the spec: \<^verbatim>\<open>MutexLock::~MutexLock()\<close>, whose body is not in the
  sources. Sections 3 and 4.2: on destruction the guard unlocks the lock iff
  \<^verbatim>\<open>acquired\<close> is true.
\<close>

definition MutexLock_delete :: "MutexLock \<Rightarrow> Mutex \<Rightarrow> Mutex \<times> mutex_call list" where
  "MutexLock_delete guard mutex =
     (if m_acquired guard then (Mutex_unlock mutex, [Unlock]) else (mutex, []))"

text \<open>\<^verbatim>\<open>operator bool()\<close> of the guard.\<close>

definition MutexLock_bool :: "MutexLock \<Rightarrow> bool" where
  "MutexLock_bool guard = m_acquired guard"

subsection \<open>SafeValue\<close>

record 'a SafeValue =
  m_value :: 'a
  m_mutex :: Mutex

text \<open>What an operation of \<^verbatim>\<open>SafeValue\<close> does, in order: calls on its private mutex,
  and reads and writes of \<^verbatim>\<open>m_value\<close>.\<close>

datatype 'a sv_event = OnLock mutex_call | Read | Write 'a

definition SafeValue_new :: "'a \<Rightarrow> 'a SafeValue" where
  "SafeValue_new v = \<lparr>m_value = v, m_mutex = Mutex_new\<rparr>"

text \<open>\<^verbatim>\<open>operator const T() const\<close>: the value is copied before the guard is destroyed.\<close>

definition SafeValue_read ::
  "u32 \<Rightarrow> 'a SafeValue \<Rightarrow> 'a \<times> 'a SafeValue \<times> 'a sv_event list" where
  "SafeValue_read portMAX_DELAY sv =
     (let (lock, mutex1, t1) = MutexLock_new (m_mutex sv) portMAX_DELAY;
          result = m_value sv;
          (mutex2, t2) = MutexLock_delete lock mutex1
      in (result, sv\<lparr>m_mutex := mutex2\<rparr>, map OnLock t1 @ [Read] @ map OnLock t2))"

text \<open>\<^verbatim>\<open>operator=(T const &value)\<close>\<close>

definition SafeValue_assign ::
  "u32 \<Rightarrow> 'a SafeValue \<Rightarrow> 'a \<Rightarrow> 'a SafeValue \<times> 'a sv_event list" where
  "SafeValue_assign portMAX_DELAY sv v =
     (let (lock, mutex1, t1) = MutexLock_new (m_mutex sv) portMAX_DELAY;
          (mutex2, t2) = MutexLock_delete lock mutex1
      in (\<lparr>m_value = v, m_mutex = mutex2\<rparr>, map OnLock t1 @ [Write v] @ map OnLock t2))"





subsection \<open>ResourceCounter\<close>

text \<open>
  The constructor initialises \<^verbatim>\<open>m_resources\<close> only; \<^verbatim>\<open>m_mutex\<close> and \<^verbatim>\<open>m_gate\<close> are
  default-constructed, whatever \<^verbatim>\<open>resourcesCount\<close> is.
\<close>

record ResourceCounter =
  m_mutex :: Mutex
  m_gate :: Mutex
  m_resources :: u32

text \<open>What a method of \<^verbatim>\<open>ResourceCounter\<close> does, in order: calls on the gate, calls
  on the count mutex, and writes of \<^verbatim>\<open>m_resources\<close>.\<close>

datatype rc_event = OnGate mutex_call | OnMutex mutex_call | SetResources u32

definition ResourceCounter_new :: "u32 \<Rightarrow> ResourceCounter" where
  "ResourceCounter_new resourcesCount =
     \<lparr>m_mutex = Mutex_new, m_gate = Mutex_new, m_resources = resourcesCount\<rparr>"

text \<open>
  \<^verbatim>\<open>get(msTimeOut)\<close>. The result of \<^verbatim>\<open>m_mutex.lock()\<close> is not looked at, as in the
  source; \<^verbatim>\<open>--m_resources\<close> wraps at zero.
\<close>

definition ResourceCounter_get ::
  "u32 \<Rightarrow> ResourceCounter \<Rightarrow> u32 \<Rightarrow> bool \<times> ResourceCounter \<times> rc_event list" where
  "ResourceCounter_get portMAX_DELAY rc msTimeOut =
     (let (acquired, gate1) = Mutex_lock (m_gate rc) msTimeOut
      in if acquired then
           let (held, mutex1) = Mutex_lock (m_mutex rc) portMAX_DELAY;
               resources1 = m_resources rc - 1;
               gate2 = (if resources1 > 0 then Mutex_unlock gate1 else gate1);
               mutex2 = Mutex_unlock mutex1
           in (True,
               \<lparr>m_mutex = mutex2, m_gate = gate2, m_resources = resources1\<rparr>,
               [OnGate (Lock True), OnMutex (Lock held), SetResources resources1]
                 @ (if resources1 > 0 then [OnGate Unlock] else [])
                 @ [OnMutex Unlock])
         else (False, rc\<lparr>m_gate := gate1\<rparr>, [OnGate (Lock False)]))"

text \<open>\<^verbatim>\<open>release()\<close>; \<^verbatim>\<open>++m_resources\<close> wraps at the largest value.\<close>

definition ResourceCounter_release ::
  "u32 \<Rightarrow> ResourceCounter \<Rightarrow> ResourceCounter \<times> rc_event list" where
  "ResourceCounter_release portMAX_DELAY rc =
     (let (held, mutex1) = Mutex_lock (m_mutex rc) portMAX_DELAY;
          resources1 = m_resources rc + 1;
          gate1 = (if resources1 = 1 then Mutex_unlock (m_gate rc) else m_gate rc);
          mutex2 = Mutex_unlock mutex1
      in (\<lparr>m_mutex = mutex2, m_gate = gate1, m_resources = resources1\<rparr>,
          [OnMutex (Lock held), SetResources resources1]
            @ (if resources1 = 1 then [OnGate Unlock] else [])
            @ [OnMutex Unlock]))"

text \<open>
  A client's calls, one after the other. \<open>ResourceCounter_run\<close> gives the object
  after the calls; every prefix of the list ends at an observation point, outside
  the bodies of \<^verbatim>\<open>get\<close> and \<^verbatim>\<open>release\<close>.
\<close>

datatype rc_call = Get u32 | Release

fun ResourceCounter_run :: "u32 \<Rightarrow> ResourceCounter \<Rightarrow> rc_call list \<Rightarrow> ResourceCounter" where
  "ResourceCounter_run portMAX_DELAY rc [] = rc"
| "ResourceCounter_run portMAX_DELAY rc (Get msTimeOut # cs) =
     ResourceCounter_run portMAX_DELAY (fst (snd (ResourceCounter_get portMAX_DELAY rc msTimeOut))) cs"
| "ResourceCounter_run portMAX_DELAY rc (Release # cs) =
     ResourceCounter_run portMAX_DELAY (fst (ResourceCounter_release portMAX_DELAY rc)) cs"

text \<open>
  The protocol of a counting semaphore: a unit is released only by a client that
  holds one. \<open>paired p rc k cs\<close> says that, starting from \<open>rc\<close> with \<open>k\<close> units held
  (successful \<^verbatim>\<open>get\<close>s not yet released), no \<^verbatim>\<open>release\<close> of \<open>cs\<close> happens with no
  unit held.
\<close>

fun paired :: "u32 \<Rightarrow> ResourceCounter \<Rightarrow> nat \<Rightarrow> rc_call list \<Rightarrow> bool" where
  "paired portMAX_DELAY rc k [] = True"
| "paired portMAX_DELAY rc k (Get msTimeOut # cs) =
     (case ResourceCounter_get portMAX_DELAY rc msTimeOut of
        (ok, rc1, _) \<Rightarrow> paired portMAX_DELAY rc1 (if ok then Suc k else k) cs)"
| "paired portMAX_DELAY rc k (Release # cs) =
     (0 < k \<and> paired portMAX_DELAY (fst (ResourceCounter_release portMAX_DELAY rc)) (k - 1) cs)"

text \<open>The invariant of section 3, for initial count \<open>n\<close>.\<close>

definition rc_invariant :: "u32 \<Rightarrow> ResourceCounter \<Rightarrow> bool" where
  "rc_invariant n rc =
     (0 \<le> m_resources rc \<and> m_resources rc \<le> n \<and> (m_gate rc = Locked) = (m_resources rc = 0))"

text \<open>
  What the two locks and the counter look like between calls when \<open>k\<close> of the \<open>n\<close>
  units are held: the count mutex is free, \<open>m_resources\<close> is \<open>n - k\<close>, and the gate is
  held iff no unit is left.
\<close>

definition rc_state :: "u32 \<Rightarrow> ResourceCounter \<Rightarrow> nat \<Rightarrow> bool" where
  "rc_state n rc k =
     (m_mutex rc = Unlocked \<and> unat (m_resources rc) + k = unat n
      \<and> (m_gate rc = Locked) = (m_resources rc = 0))"

subsection \<open>SoftTimeOut\<close>

text \<open>
  Modelled from the spec: \<^verbatim>\<open>millisDiff(time1, time2)\<close>, declared in the header, body
  not in the sources. Section 4.8: a wraparound-safe forward difference, relying on
  unsigned overflow semantics.
\<close>

definition millisDiff :: "u32 \<Rightarrow> u32 \<Rightarrow> u32" where
  "millisDiff time1 time2 = time2 - time1"

record SoftTimeOut =
  m_timeOut :: u32
  m_startTime :: u32

text \<open>
  Modelled from the spec: \<^verbatim>\<open>SoftTimeOut::reset(time)\<close> and the constructor, bodies not
  in the sources; \<open>now\<close> is what \<^verbatim>\<open>millis()\<close> returns at the call. Section 4.6: reset
  records the current time and sets the duration.
\<close>

definition SoftTimeOut_reset :: "u32 \<Rightarrow> u32 \<Rightarrow> SoftTimeOut" where
  "SoftTimeOut_reset now time = \<lparr>m_timeOut = time, m_startTime = now\<rparr>"

text \<open>
  Modelled from the spec: \<^verbatim>\<open>SoftTimeOut::operator bool()\<close>, body not in the sources.
  Section 4.6: it computes \<^verbatim>\<open>now() - startTime\<close> with wraparound-tolerant subtraction
  and returns true once that difference is at least the duration.
\<close>

definition SoftTimeOut_bool :: "SoftTimeOut \<Rightarrow> u32 \<Rightarrow> bool" where
  "SoftTimeOut_bool t now = (m_timeOut t \<le> millisDiff (m_startTime t) now)"

subsection \<open>Queue\<close>

text \<open>
  Modelled from the spec: the scheduler's queue behind \<^verbatim>\<open>xQueueHandle\<close>, which is not
  code of the repository. Section 3: a fixed-capacity buffer with the capacity
  fixed at construction, FIFO, elements copied by value.
\<close>

record 'a xQUEUE =
  uxLength :: nat
  items :: "'a list"

text \<open>
  A call as the scheduler's queue receives it: the item to send and the ticks to
  wait at most. Each of the three blocking calls below returns, as its last
  component, the record of what it was given; the methods of \<^verbatim>\<open>Queue\<close> hand this
  record on and write none of their own.
\<close>

datatype 'a queue_call = QueueSend 'a u32 | QueueReceive u32 | QueuePeek u32

text \<open>Modelled from the spec: \<^verbatim>\<open>xQueueCreate\<close>, an empty queue of the given capacity.\<close>

definition xQueueCreate :: "u32 \<Rightarrow> 'a xQUEUE" where
  "xQueueCreate queueLength = \<lparr>uxLength = unat queueLength, items = []\<rparr>"

text \<open>
  Modelled from the spec: \<^verbatim>\<open>xQueueSend\<close>. Section 4.5: send on a full channel times
  out without enqueueing; otherwise the item is appended.
\<close>

definition xQueueSend ::
  "'a xQUEUE \<Rightarrow> 'a \<Rightarrow> u32 \<Rightarrow> bool \<times> 'a xQUEUE \<times> 'a queue_call list" where
  "xQueueSend q item ticks =
     (if length (items q) < uxLength q
      then (True, q\<lparr>items := items q @ [item]\<rparr>, [QueueSend item ticks])
      else (False, q, [QueueSend item ticks]))"

text \<open>
  Modelled from the spec: \<^verbatim>\<open>xQueueReceive\<close>. Section 4.5: receive on an empty channel
  times out without producing a value (the buffer \<open>out\<close> the caller passed keeps its
  content); otherwise the oldest item is removed and copied out.
\<close>

definition xQueueReceive ::
  "'a xQUEUE \<Rightarrow> 'a \<Rightarrow> u32 \<Rightarrow> bool \<times> 'a \<times> 'a xQUEUE \<times> 'a queue_call list" where
  "xQueueReceive q out ticks =
     (case items q of
        [] \<Rightarrow> (False, out, q, [QueueReceive ticks])
      | x # xs \<Rightarrow> (True, x, q\<lparr>items := xs\<rparr>, [QueueReceive ticks]))"

text \<open>Modelled from the spec: \<^verbatim>\<open>xQueuePeek\<close>, which reads without removing.\<close>

definition xQueuePeek ::
  "'a xQUEUE \<Rightarrow> 'a \<Rightarrow> u32 \<Rightarrow> bool \<times> 'a \<times> 'a xQUEUE \<times> 'a queue_call list" where
  "xQueuePeek q out ticks =
     (case items q of
        [] \<Rightarrow> (False, out, q, [QueuePeek ticks])
      | x # xs \<Rightarrow> (True, x, q, [QueuePeek ticks]))"

record 'a Queue =
  m_handle :: "'a xQUEUE"

definition Queue_new :: "u32 \<Rightarrow> 'a Queue" where
  "Queue_new queueLength = \<lparr>m_handle = xQueueCreate queueLength\<rparr>"

text \<open>\<^verbatim>\<open>send(item, msTimeOut)\<close>\<close>

definition Queue_send ::
  "u32 \<Rightarrow> 'a Queue \<Rightarrow> 'a \<Rightarrow> u32 \<Rightarrow> bool \<times> 'a Queue \<times> 'a queue_call list" where
  "Queue_send portTICK_RATE_MS q item msTimeOut =
     (let (ok, h, calls) = xQueueSend (m_handle q) item (msTimeOut div portTICK_RATE_MS)
      in (ok, q\<lparr>m_handle := h\<rparr>, calls))"

text \<open>\<^verbatim>\<open>signal(msTimeOut)\<close>; \<open>dummyItem\<close> is the content of the uninitialised local.\<close>

definition Queue_signal ::
  "u32 \<Rightarrow> 'a Queue \<Rightarrow> 'a \<Rightarrow> u32 \<Rightarrow> bool \<times> 'a Queue \<times> 'a queue_call list" where
  "Queue_signal portTICK_RATE_MS q dummyItem msTimeOut =
     Queue_send portTICK_RATE_MS q dummyItem msTimeOut"

text \<open>\<^verbatim>\<open>receive(item, msTimeOut)\<close>; \<open>item\<close> is what the caller's buffer holds before.\<close>

definition Queue_receive ::
  "u32 \<Rightarrow> 'a Queue \<Rightarrow> 'a \<Rightarrow> u32 \<Rightarrow> bool \<times> 'a \<times> 'a Queue \<times> 'a queue_call list" where
  "Queue_receive portTICK_RATE_MS q item msTimeOut =
     (let (ok, item1, h, calls) =
            xQueueReceive (m_handle q) item (msTimeOut div portTICK_RATE_MS)
      in (ok, item1, q\<lparr>m_handle := h\<rparr>, calls))"

text \<open>\<^verbatim>\<open>receive(msTimeOut)\<close>, which receives into a local and drops it.\<close>

definition Queue_receive_signal ::
  "u32 \<Rightarrow> 'a Queue \<Rightarrow> 'a \<Rightarrow> u32 \<Rightarrow> bool \<times> 'a Queue \<times> 'a queue_call list" where
  "Queue_receive_signal portTICK_RATE_MS q dummyItem msTimeOut =
     (let (ok, item1, q1, calls) = Queue_receive portTICK_RATE_MS q dummyItem msTimeOut
      in (ok, q1, calls))"

text \<open>\<^verbatim>\<open>peek(item, msTimeOut)\<close>\<close>

definition Queue_peek ::
  "u32 \<Rightarrow> 'a Queue \<Rightarrow> 'a \<Rightarrow> u32 \<Rightarrow> bool \<times> 'a \<times> 'a Queue \<times> 'a queue_call list" where
  "Queue_peek portTICK_RATE_MS q item msTimeOut =
     (let (ok, item1, h, calls) =
            xQueuePeek (m_handle q) item (msTimeOut div portTICK_RATE_MS)
      in (ok, item1, q\<lparr>m_handle := h\<rparr>, calls))"

text \<open>\<^verbatim>\<open>clear()\<close> and \<^verbatim>\<open>available()\<close>\<close>

definition Queue_clear :: "'a Queue \<Rightarrow> 'a Queue" where
  "Queue_clear q = q\<lparr>m_handle := (m_handle q)\<lparr>items := []\<rparr>\<rparr>"

definition Queue_available :: "'a Queue \<Rightarrow> nat" where
  "Queue_available q = length (items (m_handle q))"

text \<open>The ticks to wait that the scheduler's queue was given in a call.\<close>

definition queue_ticks :: "'a queue_call \<Rightarrow> u32" where
  "queue_ticks c =
     (case c of QueueSend item ticks \<Rightarrow> ticks | QueueReceive ticks \<Rightarrow> ticks
      | QueuePeek ticks \<Rightarrow> ticks)"

text \<open>
  The calls that \<^verbatim>\<open>send\<close>, \<^verbatim>\<open>signal\<close>, \<^verbatim>\<open>receive(item, ..)\<close>, \<^verbatim>\<open>receive(..)\<close> and \<^verbatim>\<open>peek\<close>
  make on the scheduler's queue when each is called on \<open>q\<close> with the timeout
  \<open>msTimeOut\<close>, one after the other in this order.
\<close>

definition Queue_blocking_calls :: "u32 \<Rightarrow> 'a Queue \<Rightarrow> 'a \<Rightarrow> u32 \<Rightarrow> 'a queue_call list" where
  "Queue_blocking_calls portTICK_RATE_MS q item msTimeOut =
     snd (snd (Queue_send portTICK_RATE_MS q item msTimeOut))
     @ snd (snd (Queue_signal portTICK_RATE_MS q item msTimeOut))
     @ snd (snd (snd (Queue_receive portTICK_RATE_MS q item msTimeOut)))
     @ snd (snd (Queue_receive_signal portTICK_RATE_MS q item msTimeOut))
     @ snd (snd (snd (Queue_peek portTICK_RATE_MS q item msTimeOut)))"

text \<open>The element type of \<^verbatim>\<open>Queue<int>\<close>: 32 bits, read in two's complement.\<close>

type_synonym int32 = "32 word"

section \<open>ResourceCounter: the two-lock counting semaphore\<close>

subsection \<open>One call of get and of release\<close>

lemma fst_Mutex_lock: "fst (Mutex_lock m msTimeOut) = (m = Unlocked)"
  by (cases m) (simp_all add: Mutex_lock_def)



text \<open>
  C4. Whenever \<^verbatim>\<open>get(msTimeOut)\<close> fails to acquire the gate within the timeout, it
  returns false and the object (counter, gate and count mutex) is exactly what it
  was before the call; the only call it made is the failed lock of the gate.
\<close>

theorem ResourceCounter_get_timeout:
  assumes "\<not> fst (Mutex_lock (m_gate rc) msTimeOut)"
  shows "ResourceCounter_get portMAX_DELAY rc msTimeOut = (False, rc, [OnGate (Lock False)])"
  using assms
  by (cases "m_gate rc") (simp_all add: ResourceCounter_get_def Mutex_lock_def)

theorem ResourceCounter_get_timeout_witness:
  "\<not> fst (Mutex_lock (m_gate \<lparr>m_mutex = Unlocked, m_gate = Locked, m_resources = 0\<rparr>) 100)
   \<and> ResourceCounter_get 0xFFFFFFFF
        \<lparr>m_mutex = Unlocked, m_gate = Locked, m_resources = 0\<rparr> 100 =
       (False, \<lparr>m_mutex = Unlocked, m_gate = Locked, m_resources = 0\<rparr>,
        [OnGate (Lock False)])"
  using
    ResourceCounter_get_timeout
      [of "\<lparr>m_mutex = Unlocked, m_gate = Locked, m_resources = 0\<rparr>" 100 "0xFFFFFFFF"]
  by (simp add: fst_Mutex_lock)



subsection \<open>The invariant between calls\<close>

lemma rc_state_new: "n \<noteq> 0 \<Longrightarrow> rc_state n (ResourceCounter_new n) 0"
  by (simp add: rc_state_def ResourceCounter_new_def Mutex_new_def)

lemma rc_state_invariant: "rc_state n rc k \<Longrightarrow> rc_invariant n rc"
  by (auto simp: rc_state_def rc_invariant_def word_le_nat_alt)

lemma rc_state_get:
  assumes "rc_state n rc k"
    and "ResourceCounter_get p rc t = (ok, rc1, ev)"
  shows "rc_state n rc1 (if ok then Suc k else k)"
proof (cases "m_gate rc")
  case Locked
  with assms show ?thesis
    by (auto simp: ResourceCounter_get_def Mutex_lock_def rc_state_def)
next
  case Unlocked
  with assms(1) have nz: "m_resources rc \<noteq> 0" and mu: "m_mutex rc = Unlocked"
    and sum: "unat (m_resources rc) + k = unat n"
    by (auto simp: rc_state_def)
  from nz have pos: "0 < unat (m_resources rc)"
    by (simp add: unat_gt_0)
  from nz have dec: "unat (m_resources rc - 1) = unat (m_resources rc) - 1"
    by (simp add: unat_minus_one)
  from Unlocked mu assms(2)
  have ok: "ok" and rc1: "rc1 = \<lparr>m_mutex = Unlocked,
       m_gate = (if m_resources rc - 1 > 0 then Unlocked else Locked),
       m_resources = m_resources rc - 1\<rparr>"
    by (auto simp: ResourceCounter_get_def Mutex_lock_def Mutex_unlock_def Let_def)
  show ?thesis using ok pos dec sum
    by (auto simp: rc1 rc_state_def word_greater_zero_iff)
qed

lemma rc_state_release:
  assumes "rc_state n rc k" and "0 < k"
  shows "rc_state n (fst (ResourceCounter_release p rc)) (k - 1)"
proof -
  from assms(1) have mu: "m_mutex rc = Unlocked"
    and sum: "unat (m_resources rc) + k = unat n"
    and gate: "(m_gate rc = Locked) = (m_resources rc = 0)"
    by (auto simp: rc_state_def)
  have "unat n < 2 ^ 32"
    using unsigned_less [of n] by simp
  with sum assms(2) have lt: "unat (m_resources rc) + 1 < 2 ^ 32"
    by simp
  then have inc: "unat (m_resources rc + 1) = unat (m_resources rc) + 1"
    by (simp add: unat_word_ariths)
  then have nz: "m_resources rc + 1 \<noteq> 0"
    by (metis Suc_eq_plus1 nat.distinct(1) unat_0)
  have one: "(m_resources rc + 1 = 1) = (m_resources rc = 0)"
    by simp
  have g: "m_resources rc \<noteq> 0 \<Longrightarrow> m_gate rc = Unlocked"
    using gate by (cases "m_gate rc") auto
  show ?thesis using mu sum assms(2) inc nz g
    by (auto simp: ResourceCounter_release_def Mutex_lock_def Mutex_unlock_def Let_def
        rc_state_def one)
qed

lemma rc_state_run:
  "rc_state n rc k \<Longrightarrow> paired p rc k cs \<Longrightarrow>
   \<exists>k'. rc_state n (ResourceCounter_run p rc (take i cs)) k'"
proof (induction cs arbitrary: rc k i)
  case Nil
  then show ?case by auto
next
  case (Cons c cs)
  show ?case
  proof (cases i)
    case 0
    with Cons.prems show ?thesis by auto
  next
    case (Suc j)
    show ?thesis
    proof (cases c)
      case (Get t)
      obtain ok rc1 ev where g: "ResourceCounter_get p rc t = (ok, rc1, ev)"
        by (cases "ResourceCounter_get p rc t") auto
      from Cons.prems(1) g have "rc_state n rc1 (if ok then Suc k else k)"
        by (rule rc_state_get)
      moreover from Cons.prems(2) Get g
      have "paired p rc1 (if ok then Suc k else k) cs"
        by simp
      ultimately have "\<exists>k'. rc_state n (ResourceCounter_run p rc1 (take j cs)) k'"
        by (rule Cons.IH)
      with Get Suc g show ?thesis by simp
    next
      case Release
      with Cons.prems(2) have k: "0 < k"
        and p: "paired p (fst (ResourceCounter_release p rc)) (k - 1) cs"
        by simp_all
      from Cons.prems(1) k
      have "rc_state n (fst (ResourceCounter_release p rc)) (k - 1)"
        by (rule rc_state_release)
      from this p
      have "\<exists>k'. rc_state n
          (ResourceCounter_run p (fst (ResourceCounter_release p rc)) (take j cs)) k'"
        by (rule Cons.IH)
      with Release Suc show ?thesis by simp
    qed
  qed
qed

text \<open>
  C1, as the code has it. For a \<^verbatim>\<open>ResourceCounter\<close> constructed with a count \<open>n\<close> of
  at least 1 and used by complete calls of \<^verbatim>\<open>get\<close> and \<^verbatim>\<open>release\<close> in which every
  \<^verbatim>\<open>release\<close> gives back a unit that a successful \<^verbatim>\<open>get\<close> took and that was not
  released yet, after every call (every prefix \<open>take i cs\<close> of the calls)
  \<open>0 \<le> m_resources \<le> n\<close> holds and the gate is locked if and only if
  \<open>m_resources = 0\<close>.
\<close>

theorem ResourceCounter_invariant_paired:
  assumes "n \<noteq> 0" and "paired p (ResourceCounter_new n) 0 cs"
  shows "rc_invariant n (ResourceCounter_run p (ResourceCounter_new n) (take i cs))"
proof -
  from assms(1) have "rc_state n (ResourceCounter_new n) 0"
    by (rule rc_state_new)
  from this assms(2)
  obtain k' where "rc_state n (ResourceCounter_run p (ResourceCounter_new n) (take i cs)) k'"
    using rc_state_run by blast
  then show ?thesis by (rule rc_state_invariant)
qed

text \<open>
  The scenario of section 8 of the spec: with two units, two \<^verbatim>\<open>get\<close>s succeed, a
  third times out, and after one \<^verbatim>\<open>release\<close> one unit is available again.
\<close>

theorem ResourceCounter_invariant_paired_witness:
  "(2::u32) \<noteq> 0
   \<and> paired 0xFFFFFFFF (ResourceCounter_new 2) 0 [Get 0, Get 0, Get 100, Release, Get 100]
   \<and> rc_invariant 2 (ResourceCounter_run 0xFFFFFFFF (ResourceCounter_new 2)
        (take 4 [Get 0, Get 0, Get 100, Release, Get 100]))
   \<and> ResourceCounter_run 0xFFFFFFFF (ResourceCounter_new 2)
        (take 4 [Get 0, Get 0, Get 100, Release, Get 100])
      = \<lparr>m_mutex = Unlocked, m_gate = Unlocked, m_resources = 1\<rparr>"
proof -
  have a: "(2::u32) \<noteq> 0"
    by simp
  have b: "paired 0xFFFFFFFF (ResourceCounter_new 2) 0
      [Get 0, Get 0, Get 100, Release, Get 100]"
    by (simp add: ResourceCounter_get_def ResourceCounter_release_def ResourceCounter_new_def
        Mutex_new_def Mutex_lock_def Mutex_unlock_def Let_def)
  have c: "ResourceCounter_run 0xFFFFFFFF (ResourceCounter_new 2)
        (take 4 [Get 0, Get 0, Get 100, Release, Get 100])
      = \<lparr>m_mutex = Unlocked, m_gate = Unlocked, m_resources = 1\<rparr>"
    by (simp add: ResourceCounter_get_def ResourceCounter_release_def ResourceCounter_new_def
        Mutex_new_def Mutex_lock_def Mutex_unlock_def Let_def)
  from a b c ResourceCounter_invariant_paired [OF a b, of 4] show ?thesis
    by simp
qed

text \<open>
  C1 as stated fails: nothing in \<^verbatim>\<open>release()\<close> compares the counter with the initial
  count, which the object does not keep. A \<^verbatim>\<open>release()\<close> that no \<^verbatim>\<open>get()\<close> precedes
  takes a counter constructed with 1 to 2.
\<close>

theorem ResourceCounter_invariant_counterexample:
  "\<not> rc_invariant 1 (ResourceCounter_run 0xFFFFFFFF (ResourceCounter_new 1) [Release])"
  by (simp add: rc_invariant_def ResourceCounter_release_def ResourceCounter_new_def
      Mutex_new_def Mutex_lock_def Mutex_unlock_def Let_def word_le_nat_alt)

text \<open>
  C2 at \<^verbatim>\<open>resourcesCount = 0\<close>. The constructor leaves the gate as its default
  constructor made it, unlocked, so the first \<^verbatim>\<open>get\<close> does not wait although no
  resource is available: it returns true, the counter wraps to \<open>0xFFFFFFFF\<close> and the
  gate is released again.
\<close>

theorem ResourceCounter_new_zero:
  "m_gate (ResourceCounter_new 0) = Unlocked
   \<and> ResourceCounter_get 0xFFFFFFFF (ResourceCounter_new 0) 100 =
       (True, \<lparr>m_mutex = Unlocked, m_gate = Unlocked, m_resources = 0xFFFFFFFF\<rparr>,
        [OnGate (Lock True), OnMutex (Lock True), SetResources 0xFFFFFFFF,
         OnGate Unlock, OnMutex Unlock])"
  by (simp add: ResourceCounter_get_def ResourceCounter_new_def
      Mutex_new_def Mutex_lock_def Mutex_unlock_def Let_def word_greater_zero_iff)

section \<open>MutexLock and SafeValue\<close>

lemma MutexLock_new_simps:
  "MutexLock_new Unlocked t = (\<lparr>m_acquired = True\<rparr>, Locked, [Lock True])"
  "MutexLock_new Locked t = (\<lparr>m_acquired = False\<rparr>, Locked, [Lock False])"
  by (simp_all add: MutexLock_new_def Mutex_lock_def)

text \<open>
  C7. Let a guard be constructed on a mutex and then destroyed. The constructor made
  one lock attempt and kept its outcome in \<^verbatim>\<open>m_acquired\<close>. The destructor calls
  \<^verbatim>\<open>unlock()\<close> on the mutex if and only if that attempt succeeded: after a failed
  attempt it makes no call and leaves the mutex as the caller had it (held by
  somebody else), after a successful one it calls \<^verbatim>\<open>unlock()\<close> exactly once and the
  mutex is free.
\<close>

theorem MutexLock_unlock_iff_acquired:
  assumes "MutexLock_new mutex msTimeOut = (guard, mutex1, calls1)"
    and "MutexLock_delete guard mutex1 = (mutex2, calls2)"
  shows "calls1 = [Lock (m_acquired guard)]
    \<and> m_acquired guard = fst (Mutex_lock mutex msTimeOut)
    \<and> (Unlock \<in> set calls2) = m_acquired guard
    \<and> calls2 = (if m_acquired guard then [Unlock] else [])
    \<and> count_list calls2 Unlock = (if m_acquired guard then 1 else 0)
    \<and> mutex2 = (if m_acquired guard then Unlocked else mutex)"
  using assms
  by (cases mutex)
    (auto simp: MutexLock_new_def MutexLock_delete_def Mutex_lock_def Mutex_unlock_def)

theorem MutexLock_unlock_iff_acquired_witness:
  "MutexLock_new Unlocked 100 = (\<lparr>m_acquired = True\<rparr>, Locked, [Lock True])
   \<and> MutexLock_delete \<lparr>m_acquired = True\<rparr> Locked = (Unlocked, [Unlock])
   \<and> count_list [Unlock] Unlock = 1
   \<and> MutexLock_new Locked 100 = (\<lparr>m_acquired = False\<rparr>, Locked, [Lock False])
   \<and> MutexLock_delete \<lparr>m_acquired = False\<rparr> Locked = (Locked, [])
   \<and> Unlock \<notin> set ([] :: mutex_call list)"
proof -
  have a: "MutexLock_new Unlocked 100 = (\<lparr>m_acquired = True\<rparr>, Locked, [Lock True])"
    by (simp add: MutexLock_new_simps)
  have b: "MutexLock_delete \<lparr>m_acquired = True\<rparr> Locked = (Unlocked, [Unlock])"
    by (simp add: MutexLock_delete_def Mutex_unlock_def)
  have c: "MutexLock_new Locked 100 = (\<lparr>m_acquired = False\<rparr>, Locked, [Lock False])"
    by (simp add: MutexLock_new_simps)
  have d: "MutexLock_delete \<lparr>m_acquired = False\<rparr> Locked = (Locked, [])"
    by (simp add: MutexLock_delete_def)
  have e: "count_list [Unlock] Unlock = (if m_acquired \<lparr>m_acquired = True\<rparr> then 1 else 0)"
    using MutexLock_unlock_iff_acquired [OF a b] by (elim conjE)
  have f: "(Unlock \<in> set ([] :: mutex_call list)) = m_acquired \<lparr>m_acquired = False\<rparr>"
    using MutexLock_unlock_iff_acquired [OF c d] by (elim conjE)
  from e have e': "count_list [Unlock] Unlock = 1"
    by simp
  from f have f': "Unlock \<notin> set ([] :: mutex_call list)"
    by simp
  from a b e' c d f' show ?thesis
    by (intro conjI)
qed



section \<open>SoftTimeOut\<close>

text \<open>
  C9. A timer reset at tick \<open>start\<close> with duration \<open>d\<close> and asked at tick \<open>now\<close>
  answers true exactly when the wrapping difference \<open>now - start\<close> is at least \<open>d\<close>.
  When \<open>e\<close> ticks have really passed since the reset, with \<open>e\<close> below \<open>2^32\<close> (the
  counter, which then reads \<open>start + e\<close> modulo \<open>2^32\<close>, has wrapped at most once),
  the answer is true exactly when \<open>d \<le> e\<close>.
\<close>

theorem SoftTimeOut_elapsed:
  assumes "e < 2 ^ 32"
  shows "SoftTimeOut_bool (SoftTimeOut_reset start d) (start + of_nat e) = (unat d \<le> e)
    \<and> SoftTimeOut_bool (SoftTimeOut_reset start d) now = (d \<le> now - start)"
proof -
  have "unat (of_nat e :: u32) = e"
    using assms by (simp add: unat_of_nat)
  then show ?thesis
    by (simp add: SoftTimeOut_bool_def SoftTimeOut_reset_def millisDiff_def word_le_nat_alt)
qed

text \<open>
  A timer of 200 ticks reset 100 ticks before the counter wraps: after 150 ticks the
  counter reads 50 and the timer has not elapsed, after 200 ticks it reads 100 and
  the timer has elapsed.
\<close>

theorem SoftTimeOut_elapsed_witness:
  "(150::nat) < 2 ^ 32
   \<and> (0xFFFFFF9C::u32) + of_nat 150 = 50
   \<and> \<not> SoftTimeOut_bool (SoftTimeOut_reset 0xFFFFFF9C 200) 50
   \<and> (200::nat) < 2 ^ 32
   \<and> (0xFFFFFF9C::u32) + of_nat 200 = 100
   \<and> SoftTimeOut_bool (SoftTimeOut_reset 0xFFFFFF9C 200) 100"
proof -
  have a: "(150::nat) < 2 ^ 32" and b: "(200::nat) < 2 ^ 32"
    by simp_all
  have n1: "(0xFFFFFF9C::u32) + of_nat 150 = 50"
    and n2: "(0xFFFFFF9C::u32) + of_nat 200 = 100"
    by simp_all
  have u: "unat (200::u32) = 200"
    by simp
  have t1: "SoftTimeOut_bool (SoftTimeOut_reset 0xFFFFFF9C 200) (0xFFFFFF9C + of_nat 150)
      = (unat (200::u32) \<le> 150)"
    using SoftTimeOut_elapsed [OF a, of "0xFFFFFF9C" 200 0] by (rule conjunct1)
  have t2: "SoftTimeOut_bool (SoftTimeOut_reset 0xFFFFFF9C 200) (0xFFFFFF9C + of_nat 200)
      = (unat (200::u32) \<le> 200)"
    using SoftTimeOut_elapsed [OF b, of "0xFFFFFF9C" 200 0] by (rule conjunct1)
  have c: "\<not> SoftTimeOut_bool (SoftTimeOut_reset 0xFFFFFF9C 200) 50"
    using t1 unfolding n1 u by simp
  have d: "SoftTimeOut_bool (SoftTimeOut_reset 0xFFFFFF9C 200) 100"
    using t2 unfolding n2 u by simp
  from a n1 c b n2 d show ?thesis
    by (intro conjI)
qed

section \<open>Queue\<close>

subsection \<open>First in, first out\<close>

lemma Queue_send_room:
  "length (items (m_handle q)) < uxLength (m_handle q) \<Longrightarrow>
   Queue_send p q item t =
     (True, \<lparr>m_handle = \<lparr>uxLength = uxLength (m_handle q), items = items (m_handle q) @ [item]\<rparr>\<rparr>,
      [QueueSend item (t div p)])"
  by (simp add: Queue_send_def xQueueSend_def Let_def)

lemma Queue_send_full:
  "\<not> length (items (m_handle q)) < uxLength (m_handle q) \<Longrightarrow>
   Queue_send p q item t = (False, q, [QueueSend item (t div p)])"
  by (simp add: Queue_send_def xQueueSend_def Let_def)

lemma Queue_receive_item:
  "items (m_handle q) = x # xs \<Longrightarrow>
   Queue_receive p q out t =
     (True, x, \<lparr>m_handle = \<lparr>uxLength = uxLength (m_handle q), items = xs\<rparr>\<rparr>,
      [QueueReceive (t div p)])"
  by (simp add: Queue_receive_def xQueueReceive_def Let_def)

lemma Queue_receive_empty:
  "items (m_handle q) = [] \<Longrightarrow>
   Queue_receive p q out t = (False, out, q, [QueueReceive (t div p)])"
  by (simp add: Queue_receive_def xQueueReceive_def Let_def)

lemma Queue_new_3: "(Queue_new 3 :: 'a Queue) = \<lparr>m_handle = \<lparr>uxLength = 3, items = []\<rparr>\<rparr>"
  by (simp add: Queue_new_def xQueueCreate_def)

text \<open>
  C8. On a \<^verbatim>\<open>Queue<int>\<close> of capacity 3, whatever the timeouts: the sends of 1, 2
  and 3 succeed; the three receives that follow yield 1, 2 and 3 in this order; a
  fourth send on the full channel, with nothing received yet, returns false and
  leaves the queue as it was; a receive on the empty channel (after the three
  receives, or on a new queue) returns false, leaves the caller's buffer as it was
  and the queue empty.
\<close>

theorem Queue_fifo_capacity_3:
  fixes q1 q2 q3 q4 q5 q6 q7 :: "int32 Queue"
  assumes s1: "Queue_send p (Queue_new 3) 1 ta = (s1, q1, c1)"
    and s2: "Queue_send p q1 2 tb = (s2, q2, c2)"
    and s3: "Queue_send p q2 3 tc = (s3, q3, c3)"
    and r1: "Queue_receive p q3 o1 td = (r1, v1, q4, c4)"
    and r2: "Queue_receive p q4 o2 te = (r2, v2, q5, c5)"
    and r3: "Queue_receive p q5 o3 tf = (r3, v3, q6, c6)"
    and r4: "Queue_receive p q6 o4 tg = (r4, v4, q7, c7)"
  shows "s1 \<and> s2 \<and> s3 \<and> Queue_available q3 = 3
    \<and> Queue_send p q3 x th = (False, q3, [QueueSend x (th div p)])
    \<and> r1 \<and> v1 = 1 \<and> r2 \<and> v2 = 2 \<and> r3 \<and> v3 = 3
    \<and> \<not> r4 \<and> v4 = o4 \<and> q7 = q6 \<and> Queue_available q6 = 0
    \<and> Queue_receive p (Queue_new 3 :: int32 Queue) o5 ti =
        (False, o5, Queue_new 3, [QueueReceive (ti div p)])"
proof -
  from s1 have q1: "s1" "q1 = \<lparr>m_handle = \<lparr>uxLength = 3, items = [1]\<rparr>\<rparr>"
    by (simp_all add: Queue_new_3 Queue_send_room)
  from s2 have q2: "s2" "q2 = \<lparr>m_handle = \<lparr>uxLength = 3, items = [1, 2]\<rparr>\<rparr>"
    by (simp_all add: q1 Queue_send_room)
  from s3 have q3: "s3" "q3 = \<lparr>m_handle = \<lparr>uxLength = 3, items = [1, 2, 3]\<rparr>\<rparr>"
    by (simp_all add: q2 Queue_send_room)
  have av: "Queue_available q3 = 3"
    by (simp add: q3 Queue_available_def)
  have full: "Queue_send p q3 x th = (False, q3, [QueueSend x (th div p)])"
    by (simp add: q3 Queue_send_full)
  from r1 have q4: "r1" "v1 = 1" "q4 = \<lparr>m_handle = \<lparr>uxLength = 3, items = [2, 3]\<rparr>\<rparr>"
    by (simp_all add: q3 Queue_receive_item)
  from r2 have q5: "r2" "v2 = 2" "q5 = \<lparr>m_handle = \<lparr>uxLength = 3, items = [3]\<rparr>\<rparr>"
    by (simp_all add: q4 Queue_receive_item)
  from r3 have q6: "r3" "v3 = 3" "q6 = \<lparr>m_handle = \<lparr>uxLength = 3, items = []\<rparr>\<rparr>"
    by (simp_all add: q5 Queue_receive_item)
  from r4 have q7: "\<not> r4" "v4 = o4" "q7 = q6"
    by (simp_all add: q6 Queue_receive_empty)
  have av0: "Queue_available q6 = 0"
    by (simp add: q6 Queue_available_def)
  have e: "Queue_receive p (Queue_new 3 :: int32 Queue) o5 ti =
      (False, o5, Queue_new 3, [QueueReceive (ti div p)])"
    by (simp add: Queue_new_3 Queue_receive_empty)
  from q1(1) q2(1) q3(1) av full q4(1,2) q5(1,2) q6(1,2) q7 av0 e show ?thesis
    by (intro conjI)
qed

text \<open>The same run with 10 ms per tick and timeouts of 50 ms.\<close>

theorem Queue_fifo_capacity_3_witness:
  "Queue_send 10 (Queue_new 3) (1::int32) 50 =
     (True, \<lparr>m_handle = \<lparr>uxLength = 3, items = [1]\<rparr>\<rparr>, [QueueSend 1 5])
   \<and> Queue_send 10 \<lparr>m_handle = \<lparr>uxLength = 3, items = [1]\<rparr>\<rparr> (2::int32) 50 =
     (True, \<lparr>m_handle = \<lparr>uxLength = 3, items = [1, 2]\<rparr>\<rparr>, [QueueSend 2 5])
   \<and> Queue_send 10 \<lparr>m_handle = \<lparr>uxLength = 3, items = [1, 2]\<rparr>\<rparr> (3::int32) 50 =
     (True, \<lparr>m_handle = \<lparr>uxLength = 3, items = [1, 2, 3]\<rparr>\<rparr>, [QueueSend 3 5])
   \<and> Queue_receive 10 \<lparr>m_handle = \<lparr>uxLength = 3, items = [1, 2, 3]\<rparr>\<rparr> (0::int32) 50 =
     (True, 1, \<lparr>m_handle = \<lparr>uxLength = 3, items = [2, 3]\<rparr>\<rparr>, [QueueReceive 5])
   \<and> Queue_receive 10 \<lparr>m_handle = \<lparr>uxLength = 3, items = [2, 3]\<rparr>\<rparr> (0::int32) 50 =
     (True, 2, \<lparr>m_handle = \<lparr>uxLength = 3, items = [3]\<rparr>\<rparr>, [QueueReceive 5])
   \<and> Queue_receive 10 \<lparr>m_handle = \<lparr>uxLength = 3, items = [3]\<rparr>\<rparr> (0::int32) 50 =
     (True, 3, \<lparr>m_handle = \<lparr>uxLength = 3, items = []\<rparr>\<rparr>, [QueueReceive 5])
   \<and> Queue_receive 10 \<lparr>m_handle = \<lparr>uxLength = 3, items = []\<rparr>\<rparr> (0::int32) 50 =
     (False, 0, \<lparr>m_handle = \<lparr>uxLength = 3, items = []\<rparr>\<rparr>, [QueueReceive 5])
   \<and> Queue_send 10 \<lparr>m_handle = \<lparr>uxLength = 3, items = [1, 2, 3]\<rparr>\<rparr> (4::int32) 50 =
     (False, \<lparr>m_handle = \<lparr>uxLength = 3, items = [1, 2, 3]\<rparr>\<rparr>, [QueueSend 4 (50 div 10)])"
proof -
  have dv: "(50::u32) div 10 = 5"
    by simp
  have a: "Queue_send 10 (Queue_new 3) (1::int32) 50 =
     (True, \<lparr>m_handle = \<lparr>uxLength = 3, items = [1]\<rparr>\<rparr>, [QueueSend 1 5])"
    by (simp add: Queue_new_3 Queue_send_room dv)
  have b: "Queue_send 10 \<lparr>m_handle = \<lparr>uxLength = 3, items = [1]\<rparr>\<rparr> (2::int32) 50 =
     (True, \<lparr>m_handle = \<lparr>uxLength = 3, items = [1, 2]\<rparr>\<rparr>, [QueueSend 2 5])"
    by (simp add: Queue_send_room dv)
  have c: "Queue_send 10 \<lparr>m_handle = \<lparr>uxLength = 3, items = [1, 2]\<rparr>\<rparr> (3::int32) 50 =
     (True, \<lparr>m_handle = \<lparr>uxLength = 3, items = [1, 2, 3]\<rparr>\<rparr>, [QueueSend 3 5])"
    by (simp add: Queue_send_room dv)
  have d: "Queue_receive 10 \<lparr>m_handle = \<lparr>uxLength = 3, items = [1, 2, 3]\<rparr>\<rparr> (0::int32) 50 =
     (True, 1, \<lparr>m_handle = \<lparr>uxLength = 3, items = [2, 3]\<rparr>\<rparr>, [QueueReceive 5])"
    by (simp add: Queue_receive_item dv)
  have e: "Queue_receive 10 \<lparr>m_handle = \<lparr>uxLength = 3, items = [2, 3]\<rparr>\<rparr> (0::int32) 50 =
     (True, 2, \<lparr>m_handle = \<lparr>uxLength = 3, items = [3]\<rparr>\<rparr>, [QueueReceive 5])"
    by (simp add: Queue_receive_item dv)
  have f: "Queue_receive 10 \<lparr>m_handle = \<lparr>uxLength = 3, items = [3]\<rparr>\<rparr> (0::int32) 50 =
     (True, 3, \<lparr>m_handle = \<lparr>uxLength = 3, items = []\<rparr>\<rparr>, [QueueReceive 5])"
    by (simp add: Queue_receive_item dv)
  have g: "Queue_receive 10 \<lparr>m_handle = \<lparr>uxLength = 3, items = []\<rparr>\<rparr> (0::int32) 50 =
     (False, 0, \<lparr>m_handle = \<lparr>uxLength = 3, items = []\<rparr>\<rparr>, [QueueReceive 5])"
    by (simp add: Queue_receive_empty dv)
  have h: "Queue_send 10 \<lparr>m_handle = \<lparr>uxLength = 3, items = [1, 2, 3]\<rparr>\<rparr> (4::int32) 50 =
     (False, \<lparr>m_handle = \<lparr>uxLength = 3, items = [1, 2, 3]\<rparr>\<rparr>, [QueueSend 4 (50 div 10)])"
    using Queue_fifo_capacity_3 [OF a b c d e f g, of 4 50 0 50] by blast
  from a b c d e f g h show ?thesis
    by (intro conjI)
qed

subsection \<open>Timeouts in ticks\<close>

lemma word_div_small: "t < p \<Longrightarrow> t div p = (0::u32)"
proof -
  assume "t < p"
  then have "unat t < unat p" by (simp add: word_less_nat_alt)
  then have "unat (t div p) = 0" by (simp add: unat_div)
  then show ?thesis by (simp add: unat_eq_0)
qed

lemma word_div_less: "1 < p \<Longrightarrow> 0 < d \<Longrightarrow> d div p < (d::u32)"
proof -
  assume "1 < p" and "0 < d"
  then have "1 < unat p" and "0 < unat d"
    by (simp_all add: word_less_nat_alt)
  then have "unat d div unat p < unat d" by simp
  then show ?thesis by (simp add: word_less_nat_alt unat_div)
qed

lemma Queue_send_calls: "snd (snd (Queue_send p q item t)) = [QueueSend item (t div p)]"
  by (simp add: Queue_send_def xQueueSend_def)

lemma Queue_receive_calls: "snd (snd (snd (Queue_receive p q out t))) = [QueueReceive (t div p)]"
  by (simp add: Queue_receive_def xQueueReceive_def split: list.split)

lemma Queue_peek_calls: "snd (snd (snd (Queue_peek p q out t))) = [QueuePeek (t div p)]"
  by (simp add: Queue_peek_def xQueuePeek_def split: list.split)

lemma Queue_signal_calls: "snd (snd (Queue_signal p q dummy t)) = [QueueSend dummy (t div p)]"
  by (simp add: Queue_signal_def Queue_send_calls)

lemma Queue_receive_signal_calls:
  "snd (snd (Queue_receive_signal p q dummy t)) = [QueueReceive (t div p)]"
  using Queue_receive_calls [of p q dummy t]
  by (cases "Queue_receive p q dummy t") (simp add: Queue_receive_signal_def)

lemma Queue_blocking_calls_eq:
  "Queue_blocking_calls p q item t =
     [QueueSend item (t div p), QueueSend item (t div p), QueueReceive (t div p),
      QueueReceive (t div p), QueuePeek (t div p)]"
  by (simp add: Queue_blocking_calls_def Queue_send_calls Queue_signal_calls
      Queue_receive_calls Queue_receive_signal_calls Queue_peek_calls)

text \<open>
  C10, as the code has it. With \<^verbatim>\<open>portTICK_RATE_MS\<close> not zero: \<^verbatim>\<open>send\<close>, \<^verbatim>\<open>signal\<close>,
  both \<^verbatim>\<open>receive\<close>s and \<^verbatim>\<open>peek\<close> each make one call on the scheduler's queue, and
  the ticks the queue is given are the truncated quotient of \<^verbatim>\<open>msTimeOut\<close> by
  \<^verbatim>\<open>portTICK_RATE_MS\<close>. So a timeout below \<^verbatim>\<open>portTICK_RATE_MS\<close> reaches the queue as 0
  ticks (no wait). The default argument \<^verbatim>\<open>portMAX_DELAY\<close> is divided like any other
  timeout; where \<^verbatim>\<open>portTICK_RATE_MS\<close> is above 1 and \<^verbatim>\<open>portMAX_DELAY\<close> is above 0,
  the queue is given a tick count below \<^verbatim>\<open>portMAX_DELAY\<close>, the value that asks the
  scheduler to wait without limit.
\<close>

theorem Queue_timeout_ticks:
  assumes "0 < portTICK_RATE_MS"
  shows "Queue_blocking_calls portTICK_RATE_MS q item msTimeOut =
      [QueueSend item (msTimeOut div portTICK_RATE_MS),
       QueueSend item (msTimeOut div portTICK_RATE_MS),
       QueueReceive (msTimeOut div portTICK_RATE_MS),
       QueueReceive (msTimeOut div portTICK_RATE_MS),
       QueuePeek (msTimeOut div portTICK_RATE_MS)]
    \<and> unat (msTimeOut div portTICK_RATE_MS) = unat msTimeOut div unat portTICK_RATE_MS
    \<and> (msTimeOut < portTICK_RATE_MS \<longrightarrow>
         map queue_ticks (Queue_blocking_calls portTICK_RATE_MS q item msTimeOut) =
           [0, 0, 0, 0, 0])
    \<and> (1 < portTICK_RATE_MS \<and> 0 < portMAX_DELAY \<longrightarrow>
         (\<forall>c \<in> set (Queue_blocking_calls portTICK_RATE_MS q item portMAX_DELAY).
            queue_ticks c = portMAX_DELAY div portTICK_RATE_MS
            \<and> queue_ticks c < portMAX_DELAY))"
  by (simp add: Queue_blocking_calls_eq queue_ticks_def unat_div word_div_small word_div_less)

text \<open>With 10 ms per tick: 5 ms become 0 ticks, \<open>0xFFFFFFFF\<close> ms become \<open>0x19999999\<close>.\<close>

theorem Queue_timeout_ticks_witness:
  "(0::u32) < 10 \<and> (5::u32) < 10
   \<and> map queue_ticks (Queue_blocking_calls 10 (Queue_new 3) (7::int32) 5) = [0, 0, 0, 0, 0]
   \<and> (1::u32) < 10 \<and> (0::u32) < 0xFFFFFFFF
   \<and> Queue_blocking_calls 10 (Queue_new 3) (7::int32) 0xFFFFFFFF =
       [QueueSend 7 (0xFFFFFFFF div 10), QueueSend 7 (0xFFFFFFFF div 10),
        QueueReceive (0xFFFFFFFF div 10), QueueReceive (0xFFFFFFFF div 10),
        QueuePeek (0xFFFFFFFF div 10)]
   \<and> (0xFFFFFFFF::u32) div 10 = 0x19999999
   \<and> queue_ticks (QueuePeek 0x19999999 :: int32 queue_call) < 0xFFFFFFFF"
proof -
  have a: "(0::u32) < 10" and b: "(5::u32) < 10" and c: "(1::u32) < 10"
    and d: "(0::u32) < 0xFFFFFFFF"
    by (simp_all add: word_less_nat_alt)
  have dv: "(0xFFFFFFFF::u32) div 10 = 0x19999999"
    by (simp add: word_eq_iff_unsigned [where ?'a = nat] unat_div)
  note t1 = Queue_timeout_ticks [OF a, of "Queue_new 3" "7::int32" 5 "0xFFFFFFFF"]
  note t2 = Queue_timeout_ticks [OF a, of "Queue_new 3" "7::int32" "0xFFFFFFFF" "0xFFFFFFFF"]
  have e: "map queue_ticks (Queue_blocking_calls 10 (Queue_new 3) (7::int32) 5) = [0, 0, 0, 0, 0]"
    using t1 b by (elim conjE) blast
  have f: "Queue_blocking_calls 10 (Queue_new 3) (7::int32) 0xFFFFFFFF =
       [QueueSend 7 (0xFFFFFFFF div 10), QueueSend 7 (0xFFFFFFFF div 10),
        QueueReceive (0xFFFFFFFF div 10), QueueReceive (0xFFFFFFFF div 10),
        QueuePeek (0xFFFFFFFF div 10)]"
    using t2 by (elim conjE)
  have mem: "QueuePeek (0xFFFFFFFF div 10) \<in> set (Queue_blocking_calls 10 (Queue_new 3) (7::int32) 0xFFFFFFFF)"
    unfolding f by simp
  have g0: "\<forall>c \<in> set (Queue_blocking_calls 10 (Queue_new 3) (7::int32) 0xFFFFFFFF).
      queue_ticks c = 0xFFFFFFFF div 10 \<and> queue_ticks c < 0xFFFFFFFF"
    using t2 c d by (elim conjE) blast
  from g0 mem have "queue_ticks (QueuePeek (0xFFFFFFFF div 10) :: int32 queue_call) < 0xFFFFFFFF"
    by blast
  then have g: "queue_ticks (QueuePeek 0x19999999 :: int32 queue_call) < 0xFFFFFFFF"
    unfolding dv .
  from a b e c d f dv g show ?thesis
    by (intro conjI)
qed

text \<open>
  C10 as stated fails where \<^verbatim>\<open>portTICK_RATE_MS\<close> is 1 (a tick every millisecond):
  the division leaves the default argument as it is, and every one of the five
  calls gives the queue \<^verbatim>\<open>portMAX_DELAY\<close> itself, here \<open>0xFFFFFFFF\<close>, which is the
  request to wait without limit and not a tick count below it.
\<close>

theorem Queue_timeout_ticks_counterexample:
  "map queue_ticks (Queue_blocking_calls 1 (Queue_new 3) (7::int32) 0xFFFFFFFF) =
     [0xFFFFFFFF, 0xFFFFFFFF, 0xFFFFFFFF, 0xFFFFFFFF, 0xFFFFFFFF]
   \<and> \<not> queue_ticks (hd (Queue_blocking_calls 1 (Queue_new 3) (7::int32) 0xFFFFFFFF))
         < 0xFFFFFFFF"
  by (simp add: Queue_blocking_calls_eq queue_ticks_def)

end
